theory Spec2Isabelle
  imports Main "HOL-Library.Word"
begin

section \<open>The game engine of FHETetris.tsx\<close>

text \<open>
  The engine lives in the \<open>useEffect\<close> body of
  \<open>packages/nextjs/app/_components/FHETetris.tsx\<close> (lines 40--204). Its data are
  JavaScript arrays of numbers: the arena is a \<open>number[][]\<close> of \<open>ROWS = 20\<close> rows of
  \<open>COLS = 10\<close> cells, a piece is a \<open>number[][]\<close> matrix with a position. Every number
  the engine handles is a small integer (cell colours \<open>0..7\<close>, coordinates, a score
  below \<open>2^53\<close>), so numbers are modelled as \<open>int\<close>, a dense array as a list, and a
  read outside an array as \<open>None\<close> (JavaScript's \<open>undefined\<close>).
\<close>

subsection \<open>Errors and array reads\<close>

text \<open>
  \<open>TypeError\<close> is the JavaScript exception raised when a property of \<open>undefined\<close> is
  read or written. \<open>OffGrid\<close> marks the places where the source does not raise but
  leaves the dense rectangular \<open>number[][]\<close> grid that the lists of this model stand
  for: a write to a negative column or beyond the end of a row (JavaScript would add a
  property to the row, or extend it with holes) and a read of \<open>row[i]\<close> outside a row
  while a matrix is being built (JavaScript would store \<open>undefined\<close> in it). The model
  stops there.
\<close>

datatype error = TypeError | OffGrid

definition js_nth :: "'a list \<Rightarrow> int \<Rightarrow> 'a option" where
  "js_nth xs i = (if 0 \<le> i \<and> i < int (length xs) then Some (xs ! nat i) else None)"

subsection \<open>The piece\<close>

text \<open>
  \<open>player = { pos: { x, y }, matrix }\<close> (lines 86--89). The two coordinates of
  \<open>pos\<close> are the fields \<open>pos_x\<close> and \<open>pos_y\<close>.
\<close>

record player =
  pos_x :: int
  pos_y :: int
  matrix :: "int list list"

subsection \<open>collide (lines 91--99)\<close>

text \<open>
  \<open>blocked ar r c\<close> is the test \<open>(arena[r] && arena[r][c]) !== 0\<close>: a missing row
  gives \<open>undefined\<close>, a missing cell in an existing row gives \<open>undefined\<close>, and
  \<open>undefined !== 0\<close> is true.
\<close>

definition blocked :: "int list list \<Rightarrow> int \<Rightarrow> int \<Rightarrow> bool" where
  "blocked ar r c =
     (case js_nth ar r of
        None \<Rightarrow> True
      | Some row \<Rightarrow> (case js_nth row c of None \<Rightarrow> True | Some v \<Rightarrow> v \<noteq> 0))"

text \<open>The inner loop over \<open>x\<close> and the outer loop over \<open>y\<close>, each with its early return.\<close>

fun collide_row :: "int list list \<Rightarrow> int \<Rightarrow> int \<Rightarrow> nat \<Rightarrow> nat \<Rightarrow> int list \<Rightarrow> bool" where
  "collide_row ar ox oy y x [] = False"
| "collide_row ar ox oy y x (v # vs) =
     (if v \<noteq> 0 \<and> blocked ar (int y + oy) (int x + ox) then True
      else collide_row ar ox oy y (Suc x) vs)"

fun collide_rows :: "int list list \<Rightarrow> int \<Rightarrow> int \<Rightarrow> nat \<Rightarrow> int list list \<Rightarrow> bool" where
  "collide_rows ar ox oy y [] = False"
| "collide_rows ar ox oy y (row # rows) =
     (if collide_row ar ox oy y 0 row then True
      else collide_rows ar ox oy (Suc y) rows)"

definition collide :: "int list list \<Rightarrow> player \<Rightarrow> bool" where
  "collide ar p = collide_rows ar (pos_x p) (pos_y p) 0 (matrix p)"

subsection \<open>merge (lines 101--107)\<close>

text \<open>
  One step of the inner \<open>forEach\<close>: \<open>if (val !== 0) arena[y + pos.y][x + pos.x] = val\<close>.
  A missing row makes the assignment raise \<open>TypeError\<close>; a write to the column just
  past the end of a row makes the row one cell longer; a write further out or to a
  negative column leaves the grid (\<open>OffGrid\<close>, see above). Rows are distinct array objects (line 84
  builds each row with its own \<open>Array(COLS).fill(0)\<close> and sweep only moves them), so
  a write reaches one row only.
\<close>

definition merge_cell ::
  "int list list \<Rightarrow> int \<Rightarrow> int \<Rightarrow> nat \<Rightarrow> nat \<Rightarrow> int \<Rightarrow> error + int list list" where
  "merge_cell ar ox oy y x v =
     (if v \<noteq> 0 then
        (case js_nth ar (int y + oy) of
           None \<Rightarrow> Inl TypeError
         | Some row \<Rightarrow>
             (if 0 \<le> int x + ox \<and> int x + ox < int (length row)
              then Inr (ar[nat (int y + oy) := row[nat (int x + ox) := v]])
              else if int x + ox = int (length row)
              then Inr (ar[nat (int y + oy) := row @ [v]])
              else Inl OffGrid))
      else Inr ar)"

fun merge_row ::
  "int list list \<Rightarrow> int \<Rightarrow> int \<Rightarrow> nat \<Rightarrow> nat \<Rightarrow> int list \<Rightarrow> error + int list list" where
  "merge_row ar ox oy y x [] = Inr ar"
| "merge_row ar ox oy y x (v # vs) =
     (case merge_cell ar ox oy y x v of
        Inl e \<Rightarrow> Inl e
      | Inr ar' \<Rightarrow> merge_row ar' ox oy y (Suc x) vs)"

fun merge_rows ::
  "int list list \<Rightarrow> int \<Rightarrow> int \<Rightarrow> nat \<Rightarrow> int list list \<Rightarrow> error + int list list" where
  "merge_rows ar ox oy y [] = Inr ar"
| "merge_rows ar ox oy y (row # rows) =
     (case merge_row ar ox oy y 0 row of
        Inl e \<Rightarrow> Inl e
      | Inr ar' \<Rightarrow> merge_rows ar' ox oy (Suc y) rows)"

definition merge :: "int list list \<Rightarrow> player \<Rightarrow> error + int list list" where
  "merge ar p = merge_rows ar (pos_x p) (pos_y p) 0 (matrix p)"

subsection \<open>sweep (lines 109--120)\<close>

text \<open>\<open>arena[y].every(x => x !== 0)\<close>; it is true of an empty row.\<close>

definition row_full :: "int list \<Rightarrow> bool" where
  "row_full row = list_all (\<lambda>c. c \<noteq> 0) row"

text \<open>
  Line 116, \<open>setScore(s => s + rowCount * 15)\<close>, does not add to the score: it hands
  React a function. That function reads the variable \<open>rowCount\<close> when React calls it,
  and React calls the functions it was handed, in order, when it renders next, after
  the handler has returned. \<open>updater\<close> is that function; its first argument is the
  number \<open>rowCount\<close> holds when it is called.
\<close>

definition updater :: "int \<Rightarrow> int \<Rightarrow> int" where
  "updater rowCount s = s + rowCount * 15"

text \<open>
  The \<open>for\<close> loop \<open>for (let y = arena.length - 1; y > 0; --y)\<close> with its state: the
  arena, \<open>y\<close>, the one variable \<open>rowCount\<close> of line 110, and the functions handed to
  \<open>setScore\<close> so far. In the branch of a full row, \<open>arena.splice(y, 1)[0].fill(0)\<close>
  takes row \<open>y\<close> out and zeroes it, \<open>arena.unshift(row)\<close> puts it in front, \<open>y++\<close>
  followed by the loop's \<open>--y\<close> keeps \<open>y\<close>, one more function is handed over and
  \<open>rowCount\<close> is doubled. Nothing bounds the number of rounds (a row of no cells stays
  full when zeroed), so the loop is a partial function: \<open>None\<close> is a run that never
  ends.
\<close>

partial_function (option) sweep_loop ::
  "int list list \<Rightarrow> nat \<Rightarrow> int \<Rightarrow> (int \<Rightarrow> int \<Rightarrow> int) list \<Rightarrow>
   (error + int list list \<times> int \<times> (int \<Rightarrow> int \<Rightarrow> int) list) option" where
  "sweep_loop ar y rowCount queue =
     (if y > 0 then
        (case js_nth ar (int y) of
           None \<Rightarrow> Some (Inl TypeError)
         | Some row \<Rightarrow>
             if row_full row
             then sweep_loop (replicate (length row) 0 # (take y ar @ drop (Suc y) ar)) y
                    (rowCount * 2) (queue @ [updater])
             else sweep_loop ar (y - 1) rowCount queue)
      else Some (Inr (ar, rowCount, queue)))"

declare sweep_loop.simps [code]

text \<open>React's render: the queued functions run in order on the state.\<close>

definition run_updaters :: "int \<Rightarrow> (int \<Rightarrow> int \<Rightarrow> int) list \<Rightarrow> int \<Rightarrow> int" where
  "run_updaters rowCount queue s = foldl (\<lambda>s' u. u rowCount s') s queue"

text \<open>
  \<open>y\<close> starts at \<open>arena.length - 1\<close>. For an arena of no rows that is \<open>-1\<close> in the
  source and \<open>0\<close> here; neither passes the test \<open>y > 0\<close>. The function has no
  \<open>return\<close>. Its results are the new arena and the score as the next render shows it:
  nothing reads the score between the loop and that render, so the queued functions
  are run here, with the number \<open>rowCount\<close> holds after the loop.
\<close>

definition sweep :: "int list list \<Rightarrow> int \<Rightarrow> (error + int list list \<times> int) option" where
  "sweep ar s =
     (case sweep_loop ar (length ar - 1) 1 [] of
        None \<Rightarrow> None
      | Some (Inl e) \<Rightarrow> Some (Inl e)
      | Some (Inr (ar', rowCount, queue)) \<Rightarrow> Some (Inr (ar', run_updaters rowCount queue s)))"

text \<open>
  Two notions for the statements about \<open>sweep\<close>. \<open>swept rows\<close> is the arena a pass
  leaves: when no row below the top one is full the rows stay as they are (the loop
  stops at \<open>y = 0\<close> without testing the top row); otherwise the full rows come out
  zeroed in front and the other rows follow in their order. \<open>cleared rows\<close> is the
  number of rows the pass takes out.
\<close>

definition swept :: "int list list \<Rightarrow> int list list" where
  "swept rows =
     (if filter row_full (tl rows) = [] then rows
      else map (\<lambda>row. replicate (length row) 0) (filter row_full rows)
             @ filter (\<lambda>row. \<not> row_full row) rows)"

definition cleared :: "int list list \<Rightarrow> nat" where
  "cleared rows = (if filter row_full (tl rows) = [] then 0 else length (filter row_full rows))"

subsection \<open>The shape table and the game state\<close>

definition COLS :: int where "COLS = 10"

definition ROWS :: nat where "ROWS = 20"

definition shapes :: "int list list list" where
  "shapes =
     [ [],
       [[1, 1, 1, 1]],
       [[2, 0, 0], [2, 2, 2]],
       [[0, 0, 3], [3, 3, 3]],
       [[4, 4], [4, 4]],
       [[0, 5, 5], [5, 5, 0]],
       [[0, 6, 0], [6, 6, 6]],
       [[7, 7, 0], [0, 7, 7]] ]"

text \<open>
  \<open>shapes[Math.floor(Math.random() * (shapes.length - 1)) + 1]\<close>. The random draw is
  an input of the model: \<open>rnd\<close> is the value of
  \<open>Math.floor(Math.random() * (shapes.length - 1))\<close>, one of \<open>0..6\<close>.
\<close>

definition random_shape :: "nat \<Rightarrow> int list list option" where
  "random_shape rnd = js_nth shapes (int rnd + 1)"

text \<open>
  The state a game runs on: the \<open>arena\<close> and \<open>player\<close> objects of the effect, and the
  React state \<open>score\<close>, \<open>gameOver\<close>, \<open>started\<close>. (\<open>feedbackMsg\<close> and \<open>intervalId\<close>
  do not reach the engine.) The state is the one the render after a handler shows:
  React applies the updates of a handler with that render, and the effect's cleanup
  then removes the listener and the interval of a game that is over.
\<close>

record game =
  arena :: "int list list"
  player :: player
  score :: int
  gameOver :: bool
  started :: bool

text \<open>Line 84: \<open>Array.from({ length: ROWS }, () => Array(COLS).fill(0))\<close>.\<close>

definition new_arena :: "int list list" where
  "new_arena = replicate ROWS (replicate (nat COLS) 0)"

text \<open>
  Lines 86--89: the piece a game starts with. (Were the table read outside its range,
  the \<open>undefined\<close> matrix would raise \<open>TypeError\<close> at its first use, the \<open>draw()\<close>
  that ends the effect.)
\<close>

definition initial_player :: "nat \<Rightarrow> error + player" where
  "initial_player rnd =
     (case random_shape rnd of
        None \<Rightarrow> Inl TypeError
      | Some m \<Rightarrow> Inr \<lparr>pos_x = 0, pos_y = 0, matrix = m\<rparr>)"

text \<open>
  The Start button (lines 255--259) sets \<open>gameOver = false\<close>, \<open>started = true\<close>,
  \<open>score = 0\<close>; the effect then runs and builds the arena and the piece.
\<close>

definition startGame :: "nat \<Rightarrow> error + game" where
  "startGame rnd =
     (case initial_player rnd of
        Inl e \<Rightarrow> Inl e
      | Inr p \<Rightarrow> Inr \<lparr>arena = new_arena, player = p, score = 0, gameOver = False, started = True\<rparr>)"

subsection \<open>playerReset (lines 142--151)\<close>

text \<open>
  \<open>player.matrix[0].length\<close> raises \<open>TypeError\<close> on a matrix of no rows. On a
  collision \<open>setGameOver(true)\<close> and \<open>resetGame()\<close> (\<open>setStarted(false)\<close>) run.
\<close>

definition playerReset :: "game \<Rightarrow> nat \<Rightarrow> error + game" where
  "playerReset g rnd =
     (case random_shape rnd of
        None \<Rightarrow> Inl TypeError
      | Some m \<Rightarrow>
          (case m of
             [] \<Rightarrow> Inl TypeError
           | r0 # _ \<Rightarrow>
               (let p = \<lparr>pos_x = COLS div 2 - int (length r0) div 2, pos_y = 0, matrix = m\<rparr>
                in if collide (arena g) p
                   then Inr (g\<lparr>player := p, gameOver := True, started := False\<rparr>)
                   else Inr (g\<lparr>player := p\<rparr>))))"

subsection \<open>playerDrop (lines 153--163)\<close>

definition playerDrop :: "game \<Rightarrow> nat \<Rightarrow> (error + game) option" where
  "playerDrop g rnd =
     (if gameOver g then Some (Inr g)
      else
        (let p = player g; p1 = p\<lparr>pos_y := pos_y p + 1\<rparr>
         in if collide (arena g) p1 then
              (case merge (arena g) p of
                 Inl e \<Rightarrow> Some (Inl e)
               | Inr a1 \<Rightarrow>
                   (case sweep a1 (score g) of
                      None \<Rightarrow> None
                    | Some (Inl e) \<Rightarrow> Some (Inl e)
                    | Some (Inr (a2, s2)) \<Rightarrow> Some (playerReset (g\<lparr>arena := a2, score := s2\<rparr>) rnd)))
            else Some (Inr (g\<lparr>player := p1\<rparr>))))"

subsection \<open>movePlayer (lines 165--169)\<close>

definition movePlayer :: "game \<Rightarrow> int \<Rightarrow> game" where
  "movePlayer g dir =
     (let p = player g; p1 = p\<lparr>pos_x := pos_x p + dir\<rparr>
      in if collide (arena g) p1 then g else g\<lparr>player := p1\<rparr>)"

subsection \<open>rotate (line 171)\<close>

text \<open>
  \<open>matrix[0].map((_, i) => matrix.map(row => row[i])).reverse()\<close>: one new row per
  column \<open>i\<close> of the first row, holding \<open>row[i]\<close> of every row, and the new rows in
  reverse order. \<open>matrix[0]\<close> of a matrix of no rows is \<open>undefined\<close>, and \<open>.map\<close> on
  it raises \<open>TypeError\<close>. A row shorter than the first would put \<open>undefined\<close> into
  the result (\<open>OffGrid\<close>); cells of a longer row beyond the first row's length are
  not read.
\<close>

definition rotate :: "int list list \<Rightarrow> error + int list list" where
  "rotate m =
     (case m of
        [] \<Rightarrow> Inl TypeError
      | r0 # _ \<Rightarrow>
          if list_all (\<lambda>row. length r0 \<le> length row) m
          then Inr (rev (map (\<lambda>i. map (\<lambda>row. row ! i) m) [0..<length r0]))
          else Inl OffGrid)"

subsection \<open>playerRotate (lines 173--183)\<close>

text \<open>
  The \<open>while\<close> loop. Each round moves the piece by \<open>offset\<close>, replaces \<open>offset\<close>
  by the next one of \<open>1, -2, 3, -4, ...\<close>, and returns from \<open>playerRotate\<close> when the
  new offset exceeds \<open>player.matrix[0].length\<close>. Both ways out of the loop leave the
  piece as the loop made it: the saved \<open>pos\<close> of line 174 is never read.
\<close>

function rotate_loop :: "int list list \<Rightarrow> player \<Rightarrow> int \<Rightarrow> error + player" where
  "rotate_loop ar p offset =
     (if collide ar p then
        (case matrix p of
           [] \<Rightarrow> Inl TypeError
         | r0 # _ \<Rightarrow>
             if - (offset + (if offset > 0 then 1 else - 1)) > int (length r0)
             then Inr (p\<lparr>pos_x := pos_x p + offset\<rparr>)
             else rotate_loop ar (p\<lparr>pos_x := pos_x p + offset\<rparr>)
                    (- (offset + (if offset > 0 then 1 else - 1))))
      else Inr p)"
  by pat_completeness auto
termination
  by (relation "measure (\<lambda>(ar, p, offset).
        (case matrix p of
           [] \<Rightarrow> 0
         | r0 # _ \<Rightarrow> if offset > 0 then 2 * nat (int (length r0) - offset) + 1
                    else 2 * nat (int (length r0) + 1 + offset)))")
     (auto split: list.splits)

definition playerRotate :: "game \<Rightarrow> error + game" where
  "playerRotate g =
     (case rotate (matrix (player g)) of
        Inl e \<Rightarrow> Inl e
      | Inr m \<Rightarrow>
          (case rotate_loop (arena g) ((player g)\<lparr>matrix := m\<rparr>) 1 of
             Inl e \<Rightarrow> Inl e
           | Inr p \<Rightarrow> Inr (g\<lparr>player := p\<rparr>)))"

subsection \<open>keyListener (lines 185--191) and the interval (line 195)\<close>

datatype key = ArrowLeft | ArrowRight | ArrowDown | ArrowUp | OtherKey

definition keyListener :: "game \<Rightarrow> key \<Rightarrow> nat \<Rightarrow> (error + game) option" where
  "keyListener g k rnd =
     (if gameOver g then Some (Inr g)
      else
        (case k of
           ArrowLeft \<Rightarrow> Some (Inr (movePlayer g (- 1)))
         | ArrowRight \<Rightarrow> Some (Inr (movePlayer g 1))
         | ArrowDown \<Rightarrow> playerDrop g rnd
         | ArrowUp \<Rightarrow> Some (playerRotate g)
         | OtherKey \<Rightarrow> Some (Inr g)))"

text \<open>
  The effect installs the key listener and \<open>setInterval(playerDrop, 200)\<close> only when
  \<open>started\<close> holds (line 41), and its cleanup removes both: an event reaches the
  engine only in a started game.
\<close>

datatype event = Tick | KeyDown key

definition dispatch :: "game \<Rightarrow> event \<Rightarrow> nat \<Rightarrow> (error + game) option" where
  "dispatch g ev rnd =
     (if \<not> started g then Some (Inr g)
      else
        (case ev of
           Tick \<Rightarrow> playerDrop g rnd
         | KeyDown k \<Rightarrow> keyListener g k rnd))"

text \<open>
  JavaScript handles one event at a time, each to completion. A run of events, every
  one with the random draw it may use, is followed up to the first exception; \<open>play\<close>
  is a run from the Start button.
\<close>

fun run_events :: "game \<Rightarrow> (event \<times> nat) list \<Rightarrow> (error + game) option" where
  "run_events g [] = Some (Inr g)"
| "run_events g ((ev, rnd) # evs) =
     (case dispatch g ev rnd of
        None \<Rightarrow> None
      | Some (Inl e) \<Rightarrow> Some (Inl e)
      | Some (Inr g') \<Rightarrow> run_events g' evs)"

definition play :: "nat \<Rightarrow> (event \<times> nat) list \<Rightarrow> (error + game) option" where
  "play rnd evs = (case startGame rnd of Inl e \<Rightarrow> Some (Inl e) | Inr g \<Rightarrow> run_events g evs)"

subsection \<open>rotate on a store of array objects\<close>

text \<open>
  \<open>reverse()\<close> works in place, and a piece taken from the table shares its matrix
  with \<open>shapes\<close>, so whether \<open>rotate\<close> changes its argument is a question about
  array objects. Here the same line 171 runs on a store: an address is an index into
  the list of objects, an object is an array of numbers or an array of addresses of
  rows, and a new array gets the next free address. The inner \<open>matrix.map(row => row[i])\<close>
  builds one new array of numbers per column, the outer \<open>map\<close> a new array of their
  addresses, and \<open>reverse()\<close> overwrites that new array. A store that does not hold a
  \<open>number[][]\<close> at the address is outside the source's types (\<open>OffGrid\<close>).
\<close>

datatype obj = Nums "int list" | Refs "nat list"

type_synonym store = "obj list"

definition alloc :: "store \<Rightarrow> obj \<Rightarrow> store \<times> nat" where
  "alloc h ob = (h @ [ob], length h)"

definition row_at :: "store \<Rightarrow> nat \<Rightarrow> int list option" where
  "row_at h a =
     (if a < length h then (case h ! a of Nums cs \<Rightarrow> Some cs | Refs _ \<Rightarrow> None) else None)"

fun rows_at :: "store \<Rightarrow> nat list \<Rightarrow> int list list option" where
  "rows_at h [] = Some []"
| "rows_at h (r # rs) =
     (case row_at h r of
        None \<Rightarrow> None
      | Some cs \<Rightarrow> (case rows_at h rs of None \<Rightarrow> None | Some m \<Rightarrow> Some (cs # m)))"

text \<open>The matrix an address stands for.\<close>

definition matrix_at :: "store \<Rightarrow> nat \<Rightarrow> int list list option" where
  "matrix_at h a =
     (if a < length h then (case h ! a of Nums _ \<Rightarrow> None | Refs rs \<Rightarrow> rows_at h rs) else None)"

text \<open>\<open>matrix.map(row => row[i])\<close>, reading the rows through their addresses.\<close>

fun column_at :: "store \<Rightarrow> nat list \<Rightarrow> nat \<Rightarrow> error + int list" where
  "column_at h [] i = Inr []"
| "column_at h (r # rs) i =
     (case row_at h r of
        None \<Rightarrow> Inl OffGrid
      | Some cs \<Rightarrow>
          if i < length cs
          then (case column_at h rs i of Inl e \<Rightarrow> Inl e | Inr col \<Rightarrow> Inr (cs ! i # col))
          else Inl OffGrid)"

text \<open>The outer \<open>map\<close> over the column indices: each round allocates one new row.\<close>

fun rotate_cols :: "store \<Rightarrow> nat list \<Rightarrow> nat list \<Rightarrow> error + store \<times> nat list" where
  "rotate_cols h rs [] = Inr (h, [])"
| "rotate_cols h rs (i # ixs) =
     (case column_at h rs i of
        Inl e \<Rightarrow> Inl e
      | Inr col \<Rightarrow>
          (case rotate_cols (fst (alloc h (Nums col))) rs ixs of
             Inl e \<Rightarrow> Inl e
           | Inr (h', adrs) \<Rightarrow> Inr (h', snd (alloc h (Nums col)) # adrs)))"

definition rotate_store :: "store \<Rightarrow> nat \<Rightarrow> error + store \<times> nat" where
  "rotate_store h a =
     (if a < length h then
        (case h ! a of
           Nums _ \<Rightarrow> Inl OffGrid
         | Refs rs \<Rightarrow>
             (case rs of
                [] \<Rightarrow> Inl TypeError
              | r0 # _ \<Rightarrow>
                  (case row_at h r0 of
                     None \<Rightarrow> Inl OffGrid
                   | Some c0 \<Rightarrow>
                       (case rotate_cols h rs [0..<length c0] of
                          Inl e \<Rightarrow> Inl e
                        | Inr (h1, adrs) \<Rightarrow>
                            Inr ((fst (alloc h1 (Refs adrs)))
                                   [snd (alloc h1 (Refs adrs)) := Refs (rev adrs)],
                                 snd (alloc h1 (Refs adrs)))))))
      else Inl OffGrid)"

section \<open>The score contract FHETetris.sol\<close>

text \<open>
  \<open>mapping(address => euint32[]) private _playerScores\<close>. An \<open>euint32\<close> and an
  \<open>externalEuint32\<close> are \<open>bytes32\<close> handles. The library \<open>FHE\<close> is not part of the
  repository: \<open>FHE.fromExternal\<close> is a parameter of the model, a function of the
  external handle, the proof and \<open>msg.sender\<close> that gives the internal handle or
  reverts (\<open>None\<close>); \<open>FHE.allowThis\<close> and \<open>FHE.allow\<close> record a grant in the access
  list. A reverted call leaves the chain as it was.
\<close>

type_synonym address = "160 word"

type_synonym euint32 = "256 word"

type_synonym externalEuint32 = "256 word"

type_synonym bytes = "8 word list"

record chain =
  playerScores :: "address \<Rightarrow> euint32 list"
  allowed :: "(euint32 \<times> address) set"

definition uploadScore ::
  "(externalEuint32 \<Rightarrow> bytes \<Rightarrow> address \<Rightarrow> euint32 option) \<Rightarrow> address \<Rightarrow>
   chain \<Rightarrow> address \<Rightarrow> externalEuint32 \<Rightarrow> bytes \<Rightarrow> chain option" where
  "uploadScore fromExternal this c sender encryptedScore inputProof =
     (case fromExternal encryptedScore inputProof sender of
        None \<Rightarrow> None
      | Some internalScore \<Rightarrow>
          Some (c\<lparr>playerScores :=
                    (playerScores c)(sender := playerScores c sender @ [internalScore]),
                  allowed :=
                    insert (internalScore, sender) (insert (internalScore, this) (allowed c))\<rparr>))"

definition fetchScores :: "chain \<Rightarrow> address \<Rightarrow> euint32 list" where
  "fetchScores c p = playerScores c p"

text \<open>
  A sequence of \<open>uploadScore\<close> transactions, each with its sender and arguments, run in
  order; a transaction that reverts changes nothing.
\<close>

fun run_uploads ::
  "(externalEuint32 \<Rightarrow> bytes \<Rightarrow> address \<Rightarrow> euint32 option) \<Rightarrow> address \<Rightarrow>
   chain \<Rightarrow> (address \<times> externalEuint32 \<times> bytes) list \<Rightarrow> chain" where
  "run_uploads fromExternal this c [] = c"
| "run_uploads fromExternal this c ((sender, encryptedScore, inputProof) # calls) =
     run_uploads fromExternal this
       (case uploadScore fromExternal this c sender encryptedScore inputProof of
          None \<Rightarrow> c
        | Some c' \<Rightarrow> c')
       calls"

section \<open>Properties of collide\<close>

lemma collide_row_iff:
  "collide_row ar ox oy y x0 vs \<longleftrightarrow>
     (\<exists>i<length vs. vs ! i \<noteq> 0 \<and> blocked ar (int y + oy) (int (x0 + i) + ox))"
proof (induction vs arbitrary: x0)
  case Nil
  then show ?case by simp
next
  case (Cons v vs)
  have "(\<exists>i<length (v # vs). (v # vs) ! i \<noteq> 0 \<and> blocked ar (int y + oy) (int (x0 + i) + ox))
      \<longleftrightarrow> (v \<noteq> 0 \<and> blocked ar (int y + oy) (int x0 + ox))
        \<or> (\<exists>i<length vs. vs ! i \<noteq> 0 \<and> blocked ar (int y + oy) (int (Suc x0 + i) + ox))"
    by (simp add: Ex_less_Suc2 add.commute add.left_commute)
  with Cons.IH [of "Suc x0"] show ?case by auto
qed

lemma collide_rows_iff:
  "collide_rows ar ox oy y0 rows \<longleftrightarrow>
     (\<exists>j<length rows. \<exists>i<length (rows ! j).
        rows ! j ! i \<noteq> 0 \<and> blocked ar (int (y0 + j) + oy) (int i + ox))"
proof (induction rows arbitrary: y0)
  case Nil
  then show ?case by simp
next
  case (Cons row rows)
  have "(\<exists>j<length (row # rows). \<exists>i<length ((row # rows) ! j).
        (row # rows) ! j ! i \<noteq> 0 \<and> blocked ar (int (y0 + j) + oy) (int i + ox))
      \<longleftrightarrow> (\<exists>i<length row. row ! i \<noteq> 0 \<and> blocked ar (int y0 + oy) (int i + ox))
        \<or> (\<exists>j<length rows. \<exists>i<length (rows ! j).
        rows ! j ! i \<noteq> 0 \<and> blocked ar (int (Suc y0 + j) + oy) (int i + ox))"
    by (simp add: Ex_less_Suc2 add.commute add.left_commute)
  with Cons.IH [of "Suc y0"] show ?case by (auto simp: collide_row_iff)
qed

text \<open>
  What \<open>collide\<close> computes: some non-zero cell of the matrix lies on a blocked
  position of the arena.
\<close>

lemma collide_iff:
  "collide ar p \<longleftrightarrow>
     (\<exists>y<length (matrix p). \<exists>x<length (matrix p ! y).
        matrix p ! y ! x \<noteq> 0 \<and> blocked ar (int y + pos_y p) (int x + pos_x p))"
  by (simp add: collide_def collide_rows_iff)

text \<open>
  A position is blocked when its row is outside the arena (above or below alike), its
  column is outside the row, or its cell is not zero.
\<close>

lemma blocked_iff:
  "blocked ar r c \<longleftrightarrow>
     r < 0 \<or> int (length ar) \<le> r \<or> c < 0 \<or> int (length (ar ! nat r)) \<le> c
       \<or> ar ! nat r ! nat c \<noteq> 0"
  by (auto simp: blocked_def js_nth_def)

text \<open>
  Claim C1 says that a non-zero shape cell on a row above the arena (a negative row
  index) with its column inside the arena is treated as empty, and that a column
  outside the arena always collides. The first half fails: on the empty
  \<open>20 \<times> 10\<close> arena the piece \<open>[[1, 1, 1, 1]]\<close> at \<open>x = 3\<close>, \<open>y = -1\<close> has its four
  cells on row \<open>-1\<close>, columns \<open>3..6\<close>, nothing else could block it, and \<open>collide\<close>
  is true: \<open>arena[-1]\<close> is \<open>undefined\<close> and \<open>undefined !== 0\<close>.
\<close>

theorem collide_above_top_counterexample:
  "collide new_arena \<lparr>pos_x = 3, pos_y = - 1, matrix = [[1, 1, 1, 1]]\<rparr>"
  by code_simp

text \<open>
  Claim C1 as amended: in an arena whose rows all have width \<open>w\<close>, a non-zero shape cell
  that maps to a row above the arena, or to a column outside \<open>[0, w)\<close>, always makes
  \<open>collide\<close> return true. There is no asymmetry between rows above and rows below.
\<close>

theorem collide_outside_top_or_width:
  assumes "\<forall>row\<in>set ar. length row = w"
    and "y < length (matrix p)" and "x < length (matrix p ! y)" and "matrix p ! y ! x \<noteq> 0"
    and "int y + pos_y p < 0 \<or> int x + pos_x p < 0 \<or> int w \<le> int x + pos_x p"
  shows "collide ar p"
proof -
  have "blocked ar (int y + pos_y p) (int x + pos_x p)"
  proof (cases "0 \<le> int y + pos_y p \<and> int y + pos_y p < int (length ar)")
    case True
    then have "nat (int y + pos_y p) < length ar" by linarith
    then have "ar ! nat (int y + pos_y p) \<in> set ar" by (rule nth_mem)
    with assms(1) have "length (ar ! nat (int y + pos_y p)) = w" by blast
    with True assms(5) show ?thesis by (auto simp: blocked_iff)
  next
    case False
    then show ?thesis by (auto simp: blocked_iff)
  qed
  with assms(2-4) show ?thesis unfolding collide_iff by blast
qed

text \<open>
  The I piece at \<open>x = 8\<close> on the top row of the empty arena: its third cell is on
  column \<open>10\<close>.
\<close>

theorem collide_outside_width_witness:
  "collide new_arena \<lparr>pos_x = 8, pos_y = 0, matrix = [[1, 1, 1, 1]]\<rparr>"
proof -
  have "\<forall>row\<in>set new_arena. length row = 10"
    by (simp add: new_arena_def COLS_def)
  from collide_outside_top_or_width [OF this, of 0 "\<lparr>pos_x = 8, pos_y = 0, matrix = [[1, 1, 1, 1]]\<rparr>" 2]
  show ?thesis by simp
qed

text \<open>
  Claim C9 says that a non-zero shape cell on a row at or below the arena's height
  always collides, and sets that against rows above the arena: ``off-bottom rows,
  unlike off-top rows, always collide''. The contrast fails: the O piece at \<open>x = 4\<close>,
  \<open>y = -2\<close> has all its cells above the empty arena, on columns \<open>4..5\<close>, and
  \<open>collide\<close> is true.
\<close>

theorem collide_O_above_top_counterexample:
  "collide new_arena \<lparr>pos_x = 4, pos_y = - 2, matrix = [[4, 4], [4, 4]]\<rparr>"
  by code_simp

text \<open>
  Claim C9 as amended: if a non-zero cell of the piece's shape maps to a row index
  greater than or equal to the arena's height, \<open>collide\<close> returns true; a non-zero
  cell that maps to a negative row index makes it return true as well. Rows below and
  rows above the arena always collide alike.
\<close>

theorem collide_outside_rows:
  assumes "y < length (matrix p)" and "x < length (matrix p ! y)" and "matrix p ! y ! x \<noteq> 0"
    and "int (length ar) \<le> int y + pos_y p \<or> int y + pos_y p < 0"
  shows "collide ar p"
proof -
  from assms(4) have "blocked ar (int y + pos_y p) (int x + pos_x p)"
    by (auto simp: blocked_iff)
  with assms(1-3) show ?thesis unfolding collide_iff by blast
qed

text \<open>
  The O piece at \<open>y = 19\<close>: its second row is on row \<open>20\<close> of a \<open>20\<close>-row arena. The
  T piece at \<open>y = -1\<close>: its first row is on row \<open>-1\<close>.
\<close>

theorem collide_outside_rows_witness:
  "collide new_arena \<lparr>pos_x = 4, pos_y = 19, matrix = [[4, 4], [4, 4]]\<rparr>
   \<and> collide new_arena \<lparr>pos_x = 3, pos_y = - 1, matrix = [[0, 6, 0], [6, 6, 6]]\<rparr>"
proof
  show "collide new_arena \<lparr>pos_x = 4, pos_y = 19, matrix = [[4, 4], [4, 4]]\<rparr>"
    using collide_outside_rows [of 1 "\<lparr>pos_x = 4, pos_y = 19, matrix = [[4, 4], [4, 4]]\<rparr>" 0 new_arena]
    by (simp add: new_arena_def ROWS_def)
next
  show "collide new_arena \<lparr>pos_x = 3, pos_y = - 1, matrix = [[0, 6, 0], [6, 6, 6]]\<rparr>"
    using collide_outside_rows [of 0 "\<lparr>pos_x = 3, pos_y = - 1, matrix = [[0, 6, 0], [6, 6, 6]]\<rparr>" 1 new_arena]
    by simp
qed

section \<open>Properties of merge\<close>

lemma merge_cell_Inr:
  assumes "v \<noteq> 0 \<longrightarrow> 0 \<le> int y + oy \<and> int y + oy < int (length ar)
             \<and> 0 \<le> int x + ox \<and> int x + ox < int (length (ar ! nat (int y + oy)))"
  shows "merge_cell ar ox oy y x v =
           Inr (if v \<noteq> 0
                then ar[nat (int y + oy) := (ar ! nat (int y + oy))[nat (int x + ox) := v]]
                else ar)"
  using assms by (simp add: merge_cell_def js_nth_def)

lemma cell_update:
  assumes "k < length ar"
  shows "(ar[r := (ar ! r)[c0 := v]]) ! k ! c =
           (if k = r \<and> c = c0 \<and> c0 < length (ar ! r) then v else ar ! k ! c)"
  using assms by (cases "k = r") (auto simp: nth_list_update list_update_beyond)

lemma length_cell_update:
  assumes "k < length ar"
  shows "length ((ar[r := (ar ! r)[c0 := v]]) ! k) = length (ar ! k)"
  using assms by (cases "k = r") auto

lemma merge_row_spec:
  assumes "\<forall>i<length vs. vs ! i \<noteq> 0 \<longrightarrow>
             0 \<le> int y + oy \<and> int y + oy < int (length ar)
             \<and> 0 \<le> int (x0 + i) + ox \<and> int (x0 + i) + ox < int (length (ar ! nat (int y + oy)))"
  shows "\<exists>ar'. merge_row ar ox oy y x0 vs = Inr ar' \<and> length ar' = length ar
           \<and> (\<forall>k<length ar. length (ar' ! k) = length (ar ! k))
           \<and> (\<forall>i<length vs. vs ! i \<noteq> 0 \<longrightarrow>
                 ar' ! nat (int y + oy) ! nat (int (x0 + i) + ox) = vs ! i)
           \<and> (\<forall>k<length ar. \<forall>c<length (ar ! k).
                 \<not> (\<exists>i<length vs. vs ! i \<noteq> 0 \<and> int k = int y + oy \<and> int c = int (x0 + i) + ox)
                 \<longrightarrow> ar' ! k ! c = ar ! k ! c)"
  using assms
proof (induction vs arbitrary: ar x0)
  case Nil
  then show ?case by simp
next
  case (Cons v vs)
  define r where "r = nat (int y + oy)"
  define c0 where "c0 = nat (int x0 + ox)"
  define ar1 where "ar1 = (if v \<noteq> 0 then ar[r := (ar ! r)[c0 := v]] else ar)"
  have pre0: "v \<noteq> 0 \<longrightarrow> 0 \<le> int y + oy \<and> int y + oy < int (length ar)
             \<and> 0 \<le> int x0 + ox \<and> int x0 + ox < int (length (ar ! nat (int y + oy)))"
    using Cons.prems by (auto dest: spec [of _ 0])
  have cell: "merge_cell ar ox oy y x0 v = Inr ar1"
    using merge_cell_Inr [OF pre0] by (simp add: ar1_def r_def c0_def)
  have len1: "length ar1 = length ar" by (simp add: ar1_def)
  have lens1: "length (ar1 ! k) = length (ar ! k)" if "k < length ar" for k
    using that by (simp add: ar1_def length_cell_update)
  have pre1: "\<forall>i<length vs. vs ! i \<noteq> 0 \<longrightarrow>
             0 \<le> int y + oy \<and> int y + oy < int (length ar1)
             \<and> 0 \<le> int (Suc x0 + i) + ox
             \<and> int (Suc x0 + i) + ox < int (length (ar1 ! nat (int y + oy)))"
  proof (intro allI impI)
    fix i assume i: "i < length vs" and nz: "vs ! i \<noteq> 0"
    from Cons.prems i nz have h: "0 \<le> int y + oy \<and> int y + oy < int (length ar)
             \<and> 0 \<le> int (x0 + Suc i) + ox
             \<and> int (x0 + Suc i) + ox < int (length (ar ! nat (int y + oy)))"
      by (auto dest!: spec [of _ "Suc i"])
    then have "nat (int y + oy) < length ar" by linarith
    with h show "0 \<le> int y + oy \<and> int y + oy < int (length ar1)
             \<and> 0 \<le> int (Suc x0 + i) + ox
             \<and> int (Suc x0 + i) + ox < int (length (ar1 ! nat (int y + oy)))"
      by (simp add: len1 lens1)
  qed
  from Cons.IH [OF pre1] obtain ar' where
    run: "merge_row ar1 ox oy y (Suc x0) vs = Inr ar'" and
    len: "length ar' = length ar1" and
    lens: "\<forall>k<length ar1. length (ar' ! k) = length (ar1 ! k)" and
    painted: "\<forall>i<length vs. vs ! i \<noteq> 0 \<longrightarrow>
                 ar' ! nat (int y + oy) ! nat (int (Suc x0 + i) + ox) = vs ! i" and
    kept: "\<forall>k<length ar1. \<forall>c<length (ar1 ! k).
                 \<not> (\<exists>i<length vs. vs ! i \<noteq> 0 \<and> int k = int y + oy \<and> int c = int (Suc x0 + i) + ox)
                 \<longrightarrow> ar' ! k ! c = ar1 ! k ! c"
    by blast
  have "merge_row ar ox oy y x0 (v # vs) = Inr ar'"
    by (simp add: cell run)
  moreover have "length ar' = length ar"
    by (simp add: len len1)
  moreover have "\<forall>k<length ar. length (ar' ! k) = length (ar ! k)"
    using lens len1 lens1 by simp
  moreover have "\<forall>i<length (v # vs). (v # vs) ! i \<noteq> 0 \<longrightarrow>
                 ar' ! nat (int y + oy) ! nat (int (x0 + i) + ox) = (v # vs) ! i"
  proof (intro allI impI)
    fix i assume i: "i < length (v # vs)" and nz: "(v # vs) ! i \<noteq> 0"
    show "ar' ! nat (int y + oy) ! nat (int (x0 + i) + ox) = (v # vs) ! i"
    proof (cases i)
      case 0
      with nz have v: "v \<noteq> 0" by simp
      with pre0 have rng: "r < length ar" "c0 < length (ar ! r)"
        by (auto simp: r_def c0_def)
      have "\<not> (\<exists>j<length vs. vs ! j \<noteq> 0 \<and> int r = int y + oy \<and> int c0 = int (Suc x0 + j) + ox)"
        using v pre0 by (auto simp: c0_def)
      with kept rng have "ar' ! r ! c0 = ar1 ! r ! c0"
        by (simp add: len1 lens1)
      also have "\<dots> = v"
        using v rng by (simp add: ar1_def cell_update)
      finally show ?thesis using 0 by (simp add: r_def c0_def)
    next
      case (Suc j)
      with i nz painted show ?thesis by simp
    qed
  qed
  moreover have "\<forall>k<length ar. \<forall>c<length (ar ! k).
                 \<not> (\<exists>i<length (v # vs). (v # vs) ! i \<noteq> 0 \<and> int k = int y + oy
                        \<and> int c = int (x0 + i) + ox)
                 \<longrightarrow> ar' ! k ! c = ar ! k ! c"
  proof (intro allI impI)
    fix k c
    assume k: "k < length ar" and c: "c < length (ar ! k)"
      and free: "\<not> (\<exists>i<length (v # vs). (v # vs) ! i \<noteq> 0 \<and> int k = int y + oy
                        \<and> int c = int (x0 + i) + ox)"
    have free0: "\<not> (v \<noteq> 0 \<and> int k = int y + oy \<and> int c = int x0 + ox)"
      using free by (auto dest: spec [of _ 0])
    have free1: "\<not> (\<exists>i<length vs. vs ! i \<noteq> 0 \<and> int k = int y + oy
                        \<and> int c = int (Suc x0 + i) + ox)"
    proof
      assume "\<exists>i<length vs. vs ! i \<noteq> 0 \<and> int k = int y + oy \<and> int c = int (Suc x0 + i) + ox"
      then obtain i where "i < length vs" "vs ! i \<noteq> 0" "int k = int y + oy"
        "int c = int (Suc x0 + i) + ox" by blast
      then have "Suc i < length (v # vs) \<and> (v # vs) ! Suc i \<noteq> 0 \<and> int k = int y + oy
                        \<and> int c = int (x0 + Suc i) + ox" by simp
      with free show False by blast
    qed
    from kept k c free1 have "ar' ! k ! c = ar1 ! k ! c"
      by (simp add: len1 lens1)
    also have "\<dots> = ar ! k ! c"
    proof (cases "v \<noteq> 0")
      case True
      with free0 have "\<not> (k = r \<and> c = c0)"
        using pre0 by (auto simp: r_def c0_def)
      with True k show ?thesis by (auto simp: ar1_def cell_update)
    next
      case False
      then show ?thesis by (simp add: ar1_def)
    qed
    finally show "ar' ! k ! c = ar ! k ! c" .
  qed
  ultimately show ?case by blast
qed


lemma merge_rows_spec:
  assumes "\<forall>j<length rows. \<forall>i<length (rows ! j). rows ! j ! i \<noteq> 0 \<longrightarrow>
             0 \<le> int (y0 + j) + oy \<and> int (y0 + j) + oy < int (length ar)
             \<and> 0 \<le> int i + ox \<and> int i + ox < int (length (ar ! nat (int (y0 + j) + oy)))"
  shows "\<exists>ar'. merge_rows ar ox oy y0 rows = Inr ar' \<and> length ar' = length ar
           \<and> (\<forall>k<length ar. length (ar' ! k) = length (ar ! k))
           \<and> (\<forall>j<length rows. \<forall>i<length (rows ! j). rows ! j ! i \<noteq> 0 \<longrightarrow>
                 ar' ! nat (int (y0 + j) + oy) ! nat (int i + ox) = rows ! j ! i)
           \<and> (\<forall>k<length ar. \<forall>c<length (ar ! k).
                 \<not> (\<exists>j<length rows. \<exists>i<length (rows ! j). rows ! j ! i \<noteq> 0
                        \<and> int k = int (y0 + j) + oy \<and> int c = int i + ox)
                 \<longrightarrow> ar' ! k ! c = ar ! k ! c)"
  using assms
proof (induction rows arbitrary: ar y0)
  case Nil
  then show ?case by simp
next
  case (Cons row rows)
  have pre0: "\<forall>i<length row. row ! i \<noteq> 0 \<longrightarrow>
             0 \<le> int y0 + oy \<and> int y0 + oy < int (length ar)
             \<and> 0 \<le> int (0 + i) + ox \<and> int (0 + i) + ox < int (length (ar ! nat (int y0 + oy)))"
  proof (intro allI impI)
    fix i assume i: "i < length row" and nz: "row ! i \<noteq> 0"
    from Cons.prems have "\<forall>i<length ((row # rows) ! 0). (row # rows) ! 0 ! i \<noteq> 0 \<longrightarrow>
             0 \<le> int (y0 + 0) + oy \<and> int (y0 + 0) + oy < int (length ar)
             \<and> 0 \<le> int i + ox \<and> int i + ox < int (length (ar ! nat (int (y0 + 0) + oy)))"
      by blast
    with i nz show "0 \<le> int y0 + oy \<and> int y0 + oy < int (length ar)
             \<and> 0 \<le> int (0 + i) + ox \<and> int (0 + i) + ox < int (length (ar ! nat (int y0 + oy)))"
      by simp
  qed
  from merge_row_spec [OF pre0] obtain ar1 where
    run1: "merge_row ar ox oy y0 0 row = Inr ar1" and
    len1: "length ar1 = length ar" and
    lens1: "\<forall>k<length ar. length (ar1 ! k) = length (ar ! k)" and
    painted1: "\<forall>i<length row. row ! i \<noteq> 0 \<longrightarrow>
                 ar1 ! nat (int y0 + oy) ! nat (int (0 + i) + ox) = row ! i" and
    kept1: "\<forall>k<length ar. \<forall>c<length (ar ! k).
                 \<not> (\<exists>i<length row. row ! i \<noteq> 0 \<and> int k = int y0 + oy \<and> int c = int (0 + i) + ox)
                 \<longrightarrow> ar1 ! k ! c = ar ! k ! c"
    by blast
  have pre1: "\<forall>j<length rows. \<forall>i<length (rows ! j). rows ! j ! i \<noteq> 0 \<longrightarrow>
             0 \<le> int (Suc y0 + j) + oy \<and> int (Suc y0 + j) + oy < int (length ar1)
             \<and> 0 \<le> int i + ox
             \<and> int i + ox < int (length (ar1 ! nat (int (Suc y0 + j) + oy)))"
  proof (intro allI impI)
    fix j i assume j: "j < length rows" and i: "i < length (rows ! j)" and nz: "rows ! j ! i \<noteq> 0"
    from Cons.prems have "\<forall>i<length ((row # rows) ! Suc j). (row # rows) ! Suc j ! i \<noteq> 0 \<longrightarrow>
             0 \<le> int (y0 + Suc j) + oy \<and> int (y0 + Suc j) + oy < int (length ar)
             \<and> 0 \<le> int i + ox
             \<and> int i + ox < int (length (ar ! nat (int (y0 + Suc j) + oy)))"
      using j by (metis Suc_less_eq length_Cons)
    with i nz have h: "0 \<le> int (y0 + Suc j) + oy \<and> int (y0 + Suc j) + oy < int (length ar)
             \<and> 0 \<le> int i + ox
             \<and> int i + ox < int (length (ar ! nat (int (y0 + Suc j) + oy)))"
      by simp
    then have "nat (int (y0 + Suc j) + oy) < length ar" by linarith
    with lens1 have "length (ar1 ! nat (int (y0 + Suc j) + oy)) = length (ar ! nat (int (y0 + Suc j) + oy))"
      by blast
    with h show "0 \<le> int (Suc y0 + j) + oy \<and> int (Suc y0 + j) + oy < int (length ar1)
             \<and> 0 \<le> int i + ox
             \<and> int i + ox < int (length (ar1 ! nat (int (Suc y0 + j) + oy)))"
      by (simp add: len1)
  qed
  from Cons.IH [OF pre1] obtain ar' where
    run: "merge_rows ar1 ox oy (Suc y0) rows = Inr ar'" and
    len: "length ar' = length ar1" and
    lens: "\<forall>k<length ar1. length (ar' ! k) = length (ar1 ! k)" and
    painted: "\<forall>j<length rows. \<forall>i<length (rows ! j). rows ! j ! i \<noteq> 0 \<longrightarrow>
                 ar' ! nat (int (Suc y0 + j) + oy) ! nat (int i + ox) = rows ! j ! i" and
    kept: "\<forall>k<length ar1. \<forall>c<length (ar1 ! k).
                 \<not> (\<exists>j<length rows. \<exists>i<length (rows ! j). rows ! j ! i \<noteq> 0
                        \<and> int k = int (Suc y0 + j) + oy \<and> int c = int i + ox)
                 \<longrightarrow> ar' ! k ! c = ar1 ! k ! c"
    by blast
  have "merge_rows ar ox oy y0 (row # rows) = Inr ar'"
    by (simp add: run1 run)
  moreover have "length ar' = length ar"
    by (simp add: len len1)
  moreover have "\<forall>k<length ar. length (ar' ! k) = length (ar ! k)"
    using lens len1 lens1 by simp
  moreover have "\<forall>j<length (row # rows). \<forall>i<length ((row # rows) ! j).
                 (row # rows) ! j ! i \<noteq> 0 \<longrightarrow>
                 ar' ! nat (int (y0 + j) + oy) ! nat (int i + ox) = (row # rows) ! j ! i"
  proof (intro allI impI)
    fix j i
    assume j: "j < length (row # rows)" and i: "i < length ((row # rows) ! j)"
      and nz: "(row # rows) ! j ! i \<noteq> 0"
    show "ar' ! nat (int (y0 + j) + oy) ! nat (int i + ox) = (row # rows) ! j ! i"
    proof (cases j)
      case 0
      with i nz have i0: "i < length row" and nz0: "row ! i \<noteq> 0" by simp_all
      define r where "r = nat (int y0 + oy)"
      define c where "c = nat (int i + ox)"
      from pre0 i0 nz0 have rng: "r < length ar" "c < length (ar ! r)"
        "int r = int y0 + oy" "int c = int i + ox"
        by (auto simp: r_def c_def)
      have "\<not> (\<exists>j<length rows. \<exists>i<length (rows ! j). rows ! j ! i \<noteq> 0
                        \<and> int r = int (Suc y0 + j) + oy \<and> int c = int i + ox)"
        using rng(3) by auto
      with kept rng(1,2) lens1 have "ar' ! r ! c = ar1 ! r ! c"
        by (simp add: len1)
      also have "\<dots> = row ! i"
        using painted1 i0 nz0 by (simp add: r_def c_def)
      finally show ?thesis using 0 by (simp add: r_def c_def)
    next
      case (Suc j')
      with j i nz painted show ?thesis by simp
    qed
  qed
  moreover have "\<forall>k<length ar. \<forall>c<length (ar ! k).
                 \<not> (\<exists>j<length (row # rows). \<exists>i<length ((row # rows) ! j).
                        (row # rows) ! j ! i \<noteq> 0
                        \<and> int k = int (y0 + j) + oy \<and> int c = int i + ox)
                 \<longrightarrow> ar' ! k ! c = ar ! k ! c"
  proof (intro allI impI)
    fix k c
    assume k: "k < length ar" and c: "c < length (ar ! k)"
      and free: "\<not> (\<exists>j<length (row # rows). \<exists>i<length ((row # rows) ! j).
                        (row # rows) ! j ! i \<noteq> 0
                        \<and> int k = int (y0 + j) + oy \<and> int c = int i + ox)"
    have free0: "\<not> (\<exists>i<length row. row ! i \<noteq> 0 \<and> int k = int y0 + oy \<and> int c = int (0 + i) + ox)"
    proof
      assume "\<exists>i<length row. row ! i \<noteq> 0 \<and> int k = int y0 + oy \<and> int c = int (0 + i) + ox"
      then obtain i where "i < length row" "row ! i \<noteq> 0" "int k = int y0 + oy"
        "int c = int i + ox" by auto
      then have "0 < length (row # rows) \<and> i < length ((row # rows) ! 0)
          \<and> (row # rows) ! 0 ! i \<noteq> 0 \<and> int k = int (y0 + 0) + oy \<and> int c = int i + ox"
        by simp
      with free show False by blast
    qed
    have free1: "\<not> (\<exists>j<length rows. \<exists>i<length (rows ! j). rows ! j ! i \<noteq> 0
                        \<and> int k = int (Suc y0 + j) + oy \<and> int c = int i + ox)"
    proof
      assume "\<exists>j<length rows. \<exists>i<length (rows ! j). rows ! j ! i \<noteq> 0
                        \<and> int k = int (Suc y0 + j) + oy \<and> int c = int i + ox"
      then obtain j i where "j < length rows" "i < length (rows ! j)" "rows ! j ! i \<noteq> 0"
        "int k = int (Suc y0 + j) + oy" "int c = int i + ox" by blast
      then have "Suc j < length (row # rows) \<and> i < length ((row # rows) ! Suc j)
          \<and> (row # rows) ! Suc j ! i \<noteq> 0 \<and> int k = int (y0 + Suc j) + oy \<and> int c = int i + ox"
        by simp
      with free show False by blast
    qed
    from kept k c free1 lens1 have "ar' ! k ! c = ar1 ! k ! c"
      by (simp add: len1)
    also from kept1 k c free0 have "\<dots> = ar ! k ! c"
      by blast
    finally show "ar' ! k ! c = ar ! k ! c" .
  qed
  ultimately show ?case by blast
qed

lemma merge_inside:
  assumes "\<forall>y<length (matrix p). \<forall>x<length (matrix p ! y). matrix p ! y ! x \<noteq> 0 \<longrightarrow>
             0 \<le> int y + pos_y p \<and> int y + pos_y p < int (length ar)
             \<and> 0 \<le> int x + pos_x p
             \<and> int x + pos_x p < int (length (ar ! nat (int y + pos_y p)))"
  shows "\<exists>ar'. merge ar p = Inr ar' \<and> length ar' = length ar
           \<and> (\<forall>r<length ar. length (ar' ! r) = length (ar ! r))
           \<and> (\<forall>y<length (matrix p). \<forall>x<length (matrix p ! y). matrix p ! y ! x \<noteq> 0 \<longrightarrow>
                 ar' ! nat (int y + pos_y p) ! nat (int x + pos_x p) = matrix p ! y ! x)
           \<and> (\<forall>r<length ar. \<forall>c<length (ar ! r).
                 \<not> (\<exists>y<length (matrix p). \<exists>x<length (matrix p ! y). matrix p ! y ! x \<noteq> 0
                        \<and> int r = int y + pos_y p \<and> int c = int x + pos_x p)
                 \<longrightarrow> ar' ! r ! c = ar ! r ! c)"
  using merge_rows_spec [of "matrix p" 0 "pos_y p" ar "pos_x p"] assms
  by (simp add: merge_def)

text \<open>
  Claim C10: for a piece whose non-zero shape cells all map inside the board, \<open>merge\<close>
  returns a board of the same dimensions in which each board cell under a non-zero
  shape cell holds that shape cell's number, and every board cell that is not under a
  non-zero shape cell keeps its number.
\<close>

theorem merge_frame:
  assumes "\<forall>y<length (matrix p). \<forall>x<length (matrix p ! y). matrix p ! y ! x \<noteq> 0 \<longrightarrow>
             0 \<le> int y + pos_y p \<and> int y + pos_y p < int (length ar)
             \<and> 0 \<le> int x + pos_x p
             \<and> int x + pos_x p < int (length (ar ! nat (int y + pos_y p)))"
  shows "\<exists>ar'. merge ar p = Inr ar' \<and> length ar' = length ar
           \<and> (\<forall>r<length ar. length (ar' ! r) = length (ar ! r))
           \<and> (\<forall>y<length (matrix p). \<forall>x<length (matrix p ! y). matrix p ! y ! x \<noteq> 0 \<longrightarrow>
                 ar' ! nat (int y + pos_y p) ! nat (int x + pos_x p) = matrix p ! y ! x)
           \<and> (\<forall>r<length ar. \<forall>c<length (ar ! r).
                 \<not> (\<exists>y<length (matrix p). \<exists>x<length (matrix p ! y). matrix p ! y ! x \<noteq> 0
                        \<and> int r = int y + pos_y p \<and> int c = int x + pos_x p)
                 \<longrightarrow> ar' ! r ! c = ar ! r ! c)"
  using assms by (rule merge_inside)

text \<open>
  The T piece at \<open>x = 4\<close>, \<open>y = 18\<close> on the empty arena: cell \<open>(19, 4)\<close> is painted
  \<open>6\<close>, cell \<open>(18, 4)\<close>, under the zero corner of the shape, stays \<open>0\<close>.
\<close>

theorem merge_frame_witness:
  "\<exists>ar'. merge new_arena \<lparr>pos_x = 4, pos_y = 18, matrix = [[0, 6, 0], [6, 6, 6]]\<rparr> = Inr ar'
     \<and> length ar' = 20 \<and> length (ar' ! 19) = 10 \<and> ar' ! 19 ! 4 = 6 \<and> ar' ! 18 ! 4 = 0"
proof -
  let ?p = "\<lparr>pos_x = 4, pos_y = 18, matrix = [[0, 6, 0], [6, 6, 6]]\<rparr>"
  have inside: "\<forall>y<length (matrix ?p). \<forall>x<length (matrix ?p ! y). matrix ?p ! y ! x \<noteq> 0 \<longrightarrow>
             0 \<le> int y + pos_y ?p \<and> int y + pos_y ?p < int (length new_arena)
             \<and> 0 \<le> int x + pos_x ?p
             \<and> int x + pos_x ?p < int (length (new_arena ! nat (int y + pos_y ?p)))"
    by (simp add: All_less_Suc new_arena_def ROWS_def COLS_def)
  from merge_frame [OF inside] obtain ar' where
    run: "merge new_arena ?p = Inr ar'" and len: "length ar' = length new_arena"
    and lens: "\<forall>r<length new_arena. length (ar' ! r) = length (new_arena ! r)"
    and painted: "\<forall>y<length (matrix ?p). \<forall>x<length (matrix ?p ! y). matrix ?p ! y ! x \<noteq> 0 \<longrightarrow>
                 ar' ! nat (int y + pos_y ?p) ! nat (int x + pos_x ?p) = matrix ?p ! y ! x"
    and kept: "\<forall>r<length new_arena. \<forall>c<length (new_arena ! r).
                 \<not> (\<exists>y<length (matrix ?p). \<exists>x<length (matrix ?p ! y). matrix ?p ! y ! x \<noteq> 0
                        \<and> int r = int y + pos_y ?p \<and> int c = int x + pos_x ?p)
                 \<longrightarrow> ar' ! r ! c = new_arena ! r ! c"
    by blast
  from len have "length ar' = 20" by (simp add: new_arena_def ROWS_def)
  moreover from lens have "length (ar' ! 19) = 10"
    by (simp add: new_arena_def ROWS_def COLS_def)
  moreover from painted have "ar' ! 19 ! 4 = 6"
    by (simp add: All_less_Suc)
  moreover from kept have "ar' ! 18 ! 4 = 0"
    by (simp add: All_less_Suc Ex_less_Suc new_arena_def ROWS_def COLS_def)
  ultimately show ?thesis using run by blast
qed

section \<open>Properties of sweep\<close>

lemma zero_row_not_full: "row \<noteq> [] \<Longrightarrow> \<not> row_full (replicate (length row) 0)"
  by (cases row) (simp_all add: row_full_def)

lemma filter_not_full_id:
  "filter row_full rows = [] \<Longrightarrow> filter (\<lambda>row. \<not> row_full row) rows = rows"
  by (induction rows) (auto split: if_splits)

lemma swept_snoc_keep:
  assumes "rows \<noteq> []" and "\<not> row_full row"
  shows "swept (rows @ [row]) = swept rows @ [row]" and "cleared (rows @ [row]) = cleared rows"
  using assms by (auto simp: swept_def cleared_def)

lemma swept_snoc_full:
  assumes "rows \<noteq> []" and "row_full row" and "row \<noteq> []"
  shows "swept (rows @ [row]) = swept (replicate (length row) 0 # rows)"
    and "cleared (rows @ [row]) = Suc (cleared (replicate (length row) 0 # rows))"
  using assms zero_row_not_full [of row]
  by (auto simp: swept_def cleared_def filter_not_full_id)

lemma sweep_loop_step_full:
  assumes "0 < y" and "y < length ar" and "row_full (ar ! y)"
  shows "sweep_loop ar y rc q =
           sweep_loop (replicate (length (ar ! y)) 0 # (take y ar @ drop (Suc y) ar)) y
             (rc * 2) (q @ [updater])"
  using assms by (subst sweep_loop.simps) (simp add: js_nth_def)

lemma sweep_loop_step_keep:
  assumes "0 < y" and "y < length ar" and "\<not> row_full (ar ! y)"
  shows "sweep_loop ar y rc q = sweep_loop ar (y - 1) rc q"
  using assms by (subst sweep_loop.simps) (simp add: js_nth_def)

lemma sweep_loop_stop: "sweep_loop ar 0 rc q = Some (Inr (ar, rc, q))"
  by (subst sweep_loop.simps) simp

lemma sweep_loop_char:
  assumes "\<forall>row\<in>set ar. row \<noteq> []" and "y < length ar"
  shows "sweep_loop ar y rc q =
           Some (Inr (swept (take (Suc y) ar) @ drop (Suc y) ar,
                      rc * 2 ^ cleared (take (Suc y) ar),
                      q @ replicate (cleared (take (Suc y) ar)) updater))"
  using assms
proof (induction "length (filter row_full (take (Suc y) ar)) + y"
        arbitrary: ar y rc q rule: less_induct)
  case less
  show ?case
  proof (cases "y = 0")
    case True
    from less.prems(2) have "take (Suc 0) ar = [ar ! 0]"
      by (cases ar) simp_all
    with True show ?thesis
      using less.prems(2) by (cases ar) (simp_all add: sweep_loop_stop swept_def cleared_def)
  next
    case False
    then have pos: "0 < y" by simp
    have split: "take (Suc y) ar = take y ar @ [ar ! y]"
      using less.prems(2) by (rule take_Suc_conv_app_nth)
    have front: "take y ar \<noteq> []"
      using pos less.prems(2) by (cases ar) auto
    have row: "ar ! y \<noteq> []"
      using less.prems by (meson nth_mem)
    show ?thesis
    proof (cases "row_full (ar ! y)")
      case True
      define z where "z = replicate (length (ar ! y)) (0::int)"
      define ar1 where "ar1 = z # (take y ar @ drop (Suc y) ar)"
      have z: "z \<noteq> []" "\<not> row_full z"
        using row zero_row_not_full [of "ar ! y"] by (simp_all add: z_def)
      have len1: "length ar1 = length ar"
        using less.prems(2) by (simp add: ar1_def)
      have rows1: "\<forall>row\<in>set ar1. row \<noteq> []"
        using less.prems(1) z(1) by (auto simp: ar1_def dest: in_set_takeD in_set_dropD)
      have take1: "take (Suc y) ar1 = z # take y ar"
        using less.prems(2) by (simp add: ar1_def)
      have drop1: "drop (Suc y) ar1 = drop (Suc y) ar"
        using less.prems(2) by (simp add: ar1_def)
      have "length (filter row_full (take (Suc y) ar1)) + y
              < length (filter row_full (take (Suc y) ar)) + y"
        using True z(2) by (simp add: take1 split)
      from less.hyps [OF this rows1] less.prems(2)
      have "sweep_loop ar1 y (rc * 2) (q @ [updater]) =
              Some (Inr (swept (z # take y ar) @ drop (Suc y) ar,
                         rc * 2 * 2 ^ cleared (z # take y ar),
                         (q @ [updater]) @ replicate (cleared (z # take y ar)) updater))"
        by (simp add: len1 take1 drop1)
      moreover have "sweep_loop ar y rc q = sweep_loop ar1 y (rc * 2) (q @ [updater])"
        using sweep_loop_step_full [OF pos less.prems(2) True] by (simp add: ar1_def z_def)
      moreover have "swept (take (Suc y) ar) = swept (z # take y ar)"
        and "cleared (take (Suc y) ar) = Suc (cleared (z # take y ar))"
        using swept_snoc_full [OF front True row] by (simp_all add: split z_def)
      ultimately show ?thesis by (simp add: replicate_app_Cons_same)
    next
      case False
      have "length (filter row_full (take (Suc (y - 1)) ar)) + (y - 1)
              < length (filter row_full (take (Suc y) ar)) + y"
        using pos False by (simp add: split)
      from less.hyps [OF this less.prems(1)] pos less.prems(2)
      have "sweep_loop ar (y - 1) rc q =
              Some (Inr (swept (take y ar) @ drop y ar,
                         rc * 2 ^ cleared (take y ar),
                         q @ replicate (cleared (take y ar)) updater))"
        by simp
      moreover have "sweep_loop ar y rc q = sweep_loop ar (y - 1) rc q"
        by (rule sweep_loop_step_keep [OF pos less.prems(2) False])
      moreover have "swept (take (Suc y) ar) = swept (take y ar) @ [ar ! y]"
        and "cleared (take (Suc y) ar) = cleared (take y ar)"
        using swept_snoc_keep [OF front False] by (simp_all add: split)
      moreover have "drop y ar = ar ! y # drop (Suc y) ar"
        using less.prems(2) by (simp add: Cons_nth_drop_Suc)
      ultimately show ?thesis by simp
    qed
  qed
qed

lemma run_updaters_replicate:
  "run_updaters rc (replicate k updater) s = s + int k * (rc * 15)"
  by (induction k arbitrary: s) (simp_all add: run_updaters_def updater_def algebra_simps)

text \<open>
  What a pass does on an arena whose rows have at least one cell: it ends, leaves the
  arena \<open>swept\<close>, and each of the \<open>k\<close> functions it queued adds \<open>15 * 2 ^ k\<close>.
\<close>

lemma sweep_char:
  assumes "\<forall>row\<in>set ar. row \<noteq> []"
  shows "sweep ar s = Some (Inr (swept ar, s + int (cleared ar) * (15 * 2 ^ cleared ar)))"
proof (cases "ar = []")
  case True
  then show ?thesis
    by (simp add: sweep_def sweep_loop_stop swept_def cleared_def run_updaters_def)
next
  case False
  then have "length ar - 1 < length ar" "Suc (length ar - 1) = length ar"
    by simp_all
  with sweep_loop_char [OF assms, of "length ar - 1" 1 "[]"] show ?thesis
    by (simp add: sweep_def run_updaters_replicate)
qed

lemma cascade_sum: "(\<Sum>i = 1..k. 15 * 2 ^ (i - 1)) = (15 * (2 ^ k - 1) :: int)"
  by (induction k) simp_all

text \<open>
  On an arena whose rows have at least one cell and whose top row is not full, a pass
  takes out every full row, puts as many all-zero rows in front and keeps the other
  rows in their order.
\<close>

lemma sweep_top_not_full:
  assumes "\<forall>row\<in>set ar. row \<noteq> []" and "ar \<noteq> []" and "\<not> row_full (ar ! 0)"
  shows "sweep ar s =
           Some (Inr (map (\<lambda>row. replicate (length row) 0) (filter row_full ar)
                        @ filter (\<lambda>row. \<not> row_full row) ar,
                      s + int (length (filter row_full ar))
                            * (15 * 2 ^ length (filter row_full ar))))"
proof (cases "filter row_full (tl ar) = []")
  case True
  with assms(2,3) have "filter row_full ar = []"
    by (cases ar) simp_all
  then show ?thesis
    using sweep_char [OF assms(1), of s] True
    by (simp add: swept_def cleared_def filter_not_full_id)
next
  case False
  then show ?thesis
    using sweep_char [OF assms(1), of s] by (simp add: swept_def cleared_def)
qed

text \<open>
  Claim C3 says that a pass clearing \<open>k\<close> rows adds \<open>\<Sum>i = 1..k. 15 * 2 ^ (i - 1)\<close>,
  \<open>105\<close> for three rows. The loop doubles \<open>rowCount\<close> after each clear to that end,
  but the functions it hands to \<open>setScore\<close> read \<open>rowCount\<close> only when React runs
  them, after the loop: each of the \<open>k\<close> functions adds \<open>15 * 2 ^ k\<close>
  (\<open>sweep_char\<close>). Three full rows at the bottom of the arena, a partial row above
  them: the pass adds \<open>3 * 15 * 8 = 360\<close>, not \<open>105\<close>.
\<close>

theorem sweep_three_rows_score:
  "sweep (new_arena[16 := [0, 0, 0, 0, 3, 3, 0, 0, 0, 0],
                    17 := [1, 1, 1, 1, 3, 3, 2, 2, 2, 2],
                    18 := [4, 4, 6, 6, 6, 5, 5, 7, 7, 2],
                    19 := [4, 4, 1, 1, 1, 1, 5, 5, 7, 7]]) 0
     = Some (Inr (new_arena[19 := [0, 0, 0, 0, 3, 3, 0, 0, 0, 0]], 360))
   \<and> (\<Sum>i = 1..(3::nat). 15 * 2 ^ (i - 1)) = (105::int)"
proof
  show "sweep (new_arena[16 := [0, 0, 0, 0, 3, 3, 0, 0, 0, 0],
                    17 := [1, 1, 1, 1, 3, 3, 2, 2, 2, 2],
                    18 := [4, 4, 6, 6, 6, 5, 5, 7, 7, 2],
                    19 := [4, 4, 1, 1, 1, 1, 5, 5, 7, 7]]) 0
     = Some (Inr (new_arena[19 := [0, 0, 0, 0, 3, 3, 0, 0, 0, 0]], 360))"
    by code_simp
next
  show "(\<Sum>i = 1..(3::nat). 15 * 2 ^ (i - 1)) = (105::int)"
    unfolding cascade_sum by simp
qed

text \<open>
  Claim C4 says that one call of \<open>sweep\<close> removes every full row and returns the
  number of rows cleared. The loop runs while \<open>y > 0\<close> and never tests row \<open>0\<close> unless
  a clear has moved it down: on the arena whose only full row is row \<open>0\<close> the pass
  changes nothing and the full row stays.
\<close>

theorem sweep_top_row_stays:
  "sweep (new_arena[0 := [1, 1, 1, 1, 1, 1, 1, 1, 1, 1]]) 0
     = Some (Inr (new_arena[0 := [1, 1, 1, 1, 1, 1, 1, 1, 1, 1]], 0))
   \<and> row_full ((new_arena[0 := [1, 1, 1, 1, 1, 1, 1, 1, 1, 1]]) ! 0)"
  by code_simp

section \<open>Properties of rotate\<close>

lemma rotate_rect:
  assumes "m \<noteq> []" and "\<forall>row\<in>set m. length row = w"
  shows "rotate m = Inr (rev (map (\<lambda>i. map (\<lambda>row. row ! i) m) [0..<w]))"
  using assms by (cases m) (auto simp: rotate_def list_all_iff)

lemma rotate_step:
  assumes "length m = h" and "\<forall>row\<in>set m. length row = w" and "0 < h"
  shows "\<exists>m'. rotate m = Inr m' \<and> length m' = w \<and> (\<forall>row\<in>set m'. length row = h)
           \<and> (\<forall>j<w. \<forall>i<h. m' ! j ! i = m ! i ! (w - Suc j))"
proof -
  from assms(1,3) have "m \<noteq> []" by auto
  from rotate_rect [OF this assms(2)]
  have "rotate m = Inr (rev (map (\<lambda>i. map (\<lambda>row. row ! i) m) [0..<w]))" .
  moreover have "\<forall>j<w. \<forall>i<h. rev (map (\<lambda>i. map (\<lambda>row. row ! i) m) [0..<w]) ! j ! i
                   = m ! i ! (w - Suc j)"
    using assms(1) by (simp add: rev_nth)
  ultimately show ?thesis using assms(1) by auto
qed

lemma rotate_four:
  assumes "length m = h" and "\<forall>row\<in>set m. length row = w" and "0 < h" and "0 < w"
  shows "\<exists>m1 m2 m3. rotate m = Inr m1 \<and> rotate m1 = Inr m2 \<and> rotate m2 = Inr m3
           \<and> rotate m3 = Inr m"
proof -
  from rotate_step [OF assms(1-3)] obtain m1 where
    r1: "rotate m = Inr m1" and l1: "length m1 = w" and w1: "\<forall>row\<in>set m1. length row = h"
    and c1: "\<forall>j<w. \<forall>i<h. m1 ! j ! i = m ! i ! (w - Suc j)" by blast
  from rotate_step [OF l1 w1 assms(4)] obtain m2 where
    r2: "rotate m1 = Inr m2" and l2: "length m2 = h" and w2: "\<forall>row\<in>set m2. length row = w"
    and c2: "\<forall>j<h. \<forall>i<w. m2 ! j ! i = m1 ! i ! (h - Suc j)" by blast
  from rotate_step [OF l2 w2 assms(3)] obtain m3 where
    r3: "rotate m2 = Inr m3" and l3: "length m3 = w" and w3: "\<forall>row\<in>set m3. length row = h"
    and c3: "\<forall>j<w. \<forall>i<h. m3 ! j ! i = m2 ! i ! (w - Suc j)" by blast
  from rotate_step [OF l3 w3 assms(4)] obtain m4 where
    r4: "rotate m3 = Inr m4" and l4: "length m4 = h" and w4: "\<forall>row\<in>set m4. length row = w"
    and c4: "\<forall>j<h. \<forall>i<w. m4 ! j ! i = m3 ! i ! (h - Suc j)" by blast
  have "m4 = m"
  proof (rule nth_equalityI)
    show "length m4 = length m" by (simp add: l4 assms(1))
  next
    fix a assume "a < length m4"
    then have a: "a < h" by (simp add: l4)
    show "m4 ! a = m ! a"
    proof (rule nth_equalityI)
      show "length (m4 ! a) = length (m ! a)"
        using a w4 assms(1,2) l4 by (metis nth_mem)
    next
      fix b assume "b < length (m4 ! a)"
      with a w4 l4 have b: "b < w" by (metis nth_mem)
      have "m4 ! a ! b = m3 ! b ! (h - Suc a)" using c4 a b by simp
      also have "\<dots> = m2 ! (h - Suc a) ! (w - Suc b)" using c3 a b by simp
      also have "\<dots> = m1 ! (w - Suc b) ! (h - Suc (h - Suc a))" using c2 a b by simp
      also have "\<dots> = m ! (h - Suc (h - Suc a)) ! (w - Suc (w - Suc b))" using c1 a b by simp
      also have "\<dots> = m ! a ! b" using a b by simp
      finally show "m4 ! a ! b = m ! a ! b" .
    qed
  qed
  with r1 r2 r3 r4 show ?thesis by blast
qed

lemma rows_at_map: "rows_at h rs = Some m \<Longrightarrow> map (row_at h) rs = map Some m"
  by (induction rs arbitrary: m) (auto split: option.splits)

lemma map_rows_at: "map (row_at h) rs = map Some m \<Longrightarrow> rows_at h rs = Some m"
proof (induction rs arbitrary: m)
  case Nil
  then show ?case by simp
next
  case (Cons r rs)
  then obtain cs m0 where "m = cs # m0" by (cases m) auto
  with Cons show ?case by simp
qed

lemma row_at_ext: "row_at h a = Some cs \<Longrightarrow> row_at (h @ ext) a = Some cs"
  by (auto simp: row_at_def nth_append split: if_splits)

lemma rows_at_old:
  assumes "rows_at h rs = Some m"
  shows "rows_at (h @ ext) rs = Some m"
  using assms
  by (induction rs arbitrary: m) (auto split: option.splits simp: row_at_ext)

lemma column_at_rows:
  assumes "rows_at h rs = Some m" and "\<forall>row\<in>set m. i < length row"
  shows "column_at h rs i = Inr (map (\<lambda>row. row ! i) m)"
  using assms by (induction rs arbitrary: m) (auto split: option.splits)

lemma rotate_cols_rows:
  assumes "rows_at h rs = Some m" and "\<forall>i\<in>set ixs. \<forall>row\<in>set m. i < length row"
  shows "rotate_cols h rs ixs =
           Inr (h @ map (\<lambda>i. Nums (map (\<lambda>row. row ! i) m)) ixs,
                [length h..<length h + length ixs])"
  using assms
proof (induction ixs arbitrary: h)
  case Nil
  then show ?case by simp
next
  case (Cons i ixs)
  have col: "column_at h rs i = Inr (map (\<lambda>row. row ! i) m)"
    using Cons.prems by (simp add: column_at_rows)
  have "rows_at (h @ [Nums (map (\<lambda>row. row ! i) m)]) rs = Some m"
    using Cons.prems(1) by (rule rows_at_old)
  from Cons.IH [OF this] Cons.prems(2)
  have "rotate_cols (h @ [Nums (map (\<lambda>row. row ! i) m)]) rs ixs =
          Inr ((h @ [Nums (map (\<lambda>row. row ! i) m)]) @ map (\<lambda>i. Nums (map (\<lambda>row. row ! i) m)) ixs,
               [Suc (length h)..<Suc (length h) + length ixs])"
    by simp
  moreover have "[length h..<length h + length (i # ixs)] =
                   length h # [Suc (length h)..<Suc (length h) + length ixs]"
    by (simp add: upt_conv_Cons del: upt_Suc)
  ultimately show ?case using col by (simp add: alloc_def del: upt_Suc)
qed

lemma rows_at_new:
  "rows_at (h @ map Nums cols @ ext) [length h..<length h + length cols] = Some cols"
  by (rule map_rows_at, rule nth_equalityI) (simp_all add: row_at_def nth_append)

lemma rotate_store_matrix:
  assumes "matrix_at h a = Some m" and "rotate m = Inr m'"
  shows "\<exists>h' a'. rotate_store h a = Inr (h', a') \<and> matrix_at h' a' = Some m'
           \<and> take (length h) h' = h \<and> matrix_at h' a = Some m"
proof -
  from assms(1) obtain rs where a: "a < length h" and rs: "h ! a = Refs rs"
    and rows: "rows_at h rs = Some m"
    by (auto simp: matrix_at_def split: if_splits obj.splits)
  from assms(2) obtain r0 m0 where m: "m = r0 # m0"
    and ok: "\<forall>row\<in>set m. length r0 \<le> length row"
    and m': "m' = rev (map (\<lambda>i. map (\<lambda>row. row ! i) m) [0..<length r0])"
    by (auto simp: rotate_def list_all_iff split: list.splits if_splits)
  from rows m obtain a0 rs0 where rs0: "rs = a0 # rs0" and r0: "row_at h a0 = Some r0"
    by (cases rs) (auto split: option.splits)
  define cols where "cols = map (\<lambda>i. map (\<lambda>row. row ! i) m) [0..<length r0]"
  define adrs where "adrs = [length h..<length h + length r0]"
  define h1 where "h1 = h @ map Nums cols"
  define h' where "h' = h1 @ [Refs (rev adrs)]"
  have "\<forall>i\<in>set [0..<length r0]. \<forall>row\<in>set m. i < length row"
    using ok by fastforce
  from rotate_cols_rows [OF rows this]
  have cols_run: "rotate_cols h rs [0..<length r0] = Inr (h1, adrs)"
    by (simp add: h1_def cols_def adrs_def comp_def)
  have run: "rotate_store h a = Inr (h', length h1)"
    using a rs rs0 r0 cols_run by (simp add: rotate_store_def alloc_def h'_def)
  have "rows_at h' adrs = Some cols"
    using rows_at_new [of h cols "[Refs (rev adrs)]"]
    by (simp add: h'_def h1_def adrs_def cols_def)
  then have "rev (map (row_at h') adrs) = rev (map Some cols)"
    by (simp add: rows_at_map)
  then have "rows_at h' (rev adrs) = Some (rev cols)"
    by (intro map_rows_at) (simp add: rev_map)
  then have new: "matrix_at h' (length h1) = Some m'"
    by (simp add: matrix_at_def h'_def m' cols_def)
  have old: "take (length h) h' = h"
    by (simp add: h'_def h1_def)
  have "rows_at h' rs = Some m"
    using rows_at_old [OF rows, of "map Nums cols @ [Refs (rev adrs)]"]
    by (simp add: h'_def h1_def)
  then have "matrix_at h' a = Some m"
    using a rs by (simp add: matrix_at_def h'_def h1_def nth_append)
  with run new old show ?thesis by blast
qed

text \<open>
  Claim C7: for a rectangular matrix with at least one row and one column, four
  applications of \<open>rotate\<close> give the matrix back, cell for cell; and one application,
  run on the store, leaves every object of the store as it was (the new arrays get new
  addresses), so the argument still stands for the same matrix.
\<close>

theorem rotate_four_times:
  assumes "m \<noteq> []" and "\<forall>row\<in>set m. length row = w" and "0 < w"
    and "matrix_at st a = Some m"
  shows "\<exists>m1 m2 m3. rotate m = Inr m1 \<and> rotate m1 = Inr m2 \<and> rotate m2 = Inr m3
           \<and> rotate m3 = Inr m
           \<and> (\<exists>st1 a1. rotate_store st a = Inr (st1, a1) \<and> matrix_at st1 a1 = Some m1
                 \<and> take (length st) st1 = st \<and> matrix_at st1 a = Some m)"
proof -
  from assms(1) have "0 < length m" by simp
  from rotate_four [OF refl assms(2) this assms(3)] obtain m1 m2 m3 where
    r: "rotate m = Inr m1" "rotate m1 = Inr m2" "rotate m2 = Inr m3" "rotate m3 = Inr m"
    by blast
  from rotate_store_matrix [OF assms(4) r(1)] r show ?thesis by blast
qed

text \<open>
  The shape \<open>[[2, 0, 0], [2, 2, 2]]\<close> of the table, held at address \<open>2\<close> with its
  rows at \<open>0\<close> and \<open>1\<close>.
\<close>

theorem rotate_four_times_witness:
  "rotate [[2, 0, 0], [2, 2, 2]] = Inr [[0, 2], [0, 2], [2, 2]]
   \<and> rotate_store [Nums [2, 0, 0], Nums [2, 2, 2], Refs [0, 1]] 2
       = Inr ([Nums [2, 0, 0], Nums [2, 2, 2], Refs [0, 1],
               Nums [2, 2], Nums [0, 2], Nums [0, 2], Refs [5, 4, 3]], 6)
   \<and> (\<exists>m1 m2 m3. rotate [[2, 0, 0], [2, 2, 2]] = Inr m1 \<and> rotate m1 = Inr m2
         \<and> rotate m2 = Inr m3 \<and> rotate m3 = Inr [[2, 0, 0], [2, 2, 2]]
         \<and> (\<exists>st1 a1. rotate_store [Nums [2, 0, 0], Nums [2, 2, 2], Refs [0, 1]] 2 = Inr (st1, a1)
               \<and> matrix_at st1 a1 = Some m1
               \<and> take (length [Nums [2, 0, 0], Nums [2, 2, 2], Refs [0, 1]]) st1
                   = [Nums [2, 0, 0], Nums [2, 2, 2], Refs [0, 1]]
               \<and> matrix_at st1 2 = Some [[2, 0, 0], [2, 2, 2]]))"
proof -
  have h1: "[[2, 0, 0], [2, 2, 2]] \<noteq> ([] :: int list list)" by simp
  have h2: "\<forall>row\<in>set [[2, 0, 0], [2, 2, 2 :: int]]. length row = 3" by simp
  have h3: "0 < (3::nat)" by simp
  have h4: "matrix_at [Nums [2, 0, 0], Nums [2, 2, 2], Refs [0, 1]] 2 = Some [[2, 0, 0], [2, 2, 2]]"
    by code_simp
  have e1: "rotate [[2, 0, 0], [2, 2, 2]] = Inr [[0, 2], [0, 2], [2, 2]]" by code_simp
  have e2: "rotate_store [Nums [2, 0, 0], Nums [2, 2, 2], Refs [0, 1]] 2
       = Inr ([Nums [2, 0, 0], Nums [2, 2, 2], Refs [0, 1],
               Nums [2, 2], Nums [0, 2], Nums [0, 2], Refs [5, 4, 3]], 6)" by code_simp
  from rotate_four_times [OF h1 h2 h3 h4] e1 e2 show ?thesis by blast
qed

section \<open>Properties of playerRotate, of the first piece and of playerDrop\<close>

text \<open>
  Claim C2 says that a rotation whose kick search fails puts the shape and the offset
  back and never leaves a colliding piece. The source returns without restoring
  anything. A game that starts with the I piece, three moves to the right and eighteen
  ticks: the piece lies on row \<open>18\<close> at \<open>x = 3\<close> and does not collide. Rotated it
  reaches rows \<open>18..21\<close>; the search tries \<open>x = 4\<close>, moves to \<open>x = 2\<close> and returns.
  The piece is left upright at \<open>x = 2\<close>, colliding, and the next tick raises
  \<open>TypeError\<close> when \<open>merge\<close> writes to row \<open>20\<close>.
\<close>

theorem playerRotate_leaves_collision:
  "play 0 (replicate 3 (KeyDown ArrowRight, 0) @ replicate 18 (Tick, 0))
     = Some (Inr \<lparr>arena = new_arena,
                  player = \<lparr>pos_x = 3, pos_y = 18, matrix = [[1, 1, 1, 1]]\<rparr>,
                  score = 0, gameOver = False, started = True\<rparr>)
   \<and> \<not> collide new_arena \<lparr>pos_x = 3, pos_y = 18, matrix = [[1, 1, 1, 1]]\<rparr>
   \<and> playerRotate \<lparr>arena = new_arena,
                   player = \<lparr>pos_x = 3, pos_y = 18, matrix = [[1, 1, 1, 1]]\<rparr>,
                   score = 0, gameOver = False, started = True\<rparr>
     = Inr \<lparr>arena = new_arena,
            player = \<lparr>pos_x = 2, pos_y = 18, matrix = [[1], [1], [1], [1]]\<rparr>,
            score = 0, gameOver = False, started = True\<rparr>
   \<and> collide new_arena \<lparr>pos_x = 2, pos_y = 18, matrix = [[1], [1], [1], [1]]\<rparr>
   \<and> play 0 (replicate 3 (KeyDown ArrowRight, 0) @ replicate 18 (Tick, 0)
              @ [(KeyDown ArrowUp, 0), (Tick, 0)])
     = Some (Inl TypeError)"
  by code_simp

text \<open>
  Claim C5 says that every freshly spawned piece, the first one of a game included,
  has \<open>x = floor(COLS / 2) - floor(width / 2)\<close> and \<open>y = 0\<close>. The first piece is built by
  lines 86--89 with \<open>x = 0\<close>: for the O piece the centred column is \<open>4\<close>.
\<close>

theorem first_piece_not_centered:
  "startGame 3 = Inr \<lparr>arena = new_arena,
                      player = \<lparr>pos_x = 0, pos_y = 0, matrix = [[4, 4], [4, 4]]\<rparr>,
                      score = 0, gameOver = False, started = True\<rparr>
   \<and> COLS div 2 - int (length [4, 4 :: int]) div 2 = 4"
  by code_simp

text \<open>
  The pieces that \<open>playerReset\<close> spawns are centred.
\<close>

lemma playerReset_centered:
  assumes "playerReset g rnd = Inr g'"
  shows "pos_x (player g') = COLS div 2 - int (length (matrix (player g') ! 0)) div 2
           \<and> pos_y (player g') = 0"
  using assms
  by (auto simp: playerReset_def Let_def split: option.splits list.splits if_splits)

lemma not_collide_inside:
  assumes "\<not> collide ar p"
  shows "\<forall>y<length (matrix p). \<forall>x<length (matrix p ! y). matrix p ! y ! x \<noteq> 0 \<longrightarrow>
             0 \<le> int y + pos_y p \<and> int y + pos_y p < int (length ar)
             \<and> 0 \<le> int x + pos_x p
             \<and> int x + pos_x p < int (length (ar ! nat (int y + pos_y p)))"
proof (intro allI impI)
  fix y x assume "y < length (matrix p)" "x < length (matrix p ! y)" "matrix p ! y ! x \<noteq> 0"
  with assms have "\<not> blocked ar (int y + pos_y p) (int x + pos_x p)"
    unfolding collide_iff by blast
  then show "0 \<le> int y + pos_y p \<and> int y + pos_y p < int (length ar)
             \<and> 0 \<le> int x + pos_x p
             \<and> int x + pos_x p < int (length (ar ! nat (int y + pos_y p)))"
    unfolding blocked_iff by linarith
qed

lemma random_shape_Some:
  assumes "rnd < 7"
  shows "\<exists>r0 rest. random_shape rnd = Some (r0 # rest)"
proof -
  from assms have "rnd = 0 \<or> rnd = 1 \<or> rnd = 2 \<or> rnd = 3 \<or> rnd = 4 \<or> rnd = 5 \<or> rnd = 6"
    by linarith
  then show ?thesis
    by (elim disjE) (simp_all add: random_shape_def shapes_def js_nth_def)
qed

lemma merge_keeps_rows_nonempty:
  assumes "merge ar p = Inr a1" and "\<not> collide ar p" and "\<forall>row\<in>set ar. row \<noteq> []"
  shows "\<forall>row\<in>set a1. row \<noteq> []"
proof
  fix row assume "row \<in> set a1"
  then obtain k where k: "k < length a1" "row = a1 ! k"
    by (auto simp: in_set_conv_nth)
  from merge_inside [OF not_collide_inside [OF assms(2)]] assms(1)
  have "length a1 = length ar" "\<forall>r<length ar. length (a1 ! r) = length (ar ! r)"
    by auto
  with k have "length row = length (ar ! k)" "ar ! k \<in> set ar" by auto
  with assms(3) show "row \<noteq> []" by fastforce
qed

text \<open>
  What a gravity tick and a soft drop do in a started game that is not over, when the
  piece does not collide where it is: if the piece does not collide one row lower it
  moves there; otherwise it is merged into the arena where it is, \<open>sweep\<close> runs on
  the result and sets the score, a new piece is spawned centred on row \<open>0\<close>, and the
  game is over exactly when that piece collides.
\<close>

lemma playerDrop_lock_sweep_spawn:
  assumes "started g" and "\<not> gameOver g" and "ev = Tick \<or> ev = KeyDown ArrowDown"
    and "rnd < 7" and "\<forall>row\<in>set (arena g). row \<noteq> []" and "\<not> collide (arena g) (player g)"
  shows "(\<not> collide (arena g) ((player g)\<lparr>pos_y := pos_y (player g) + 1\<rparr>) \<longrightarrow>
            dispatch g ev rnd = Some (Inr (g\<lparr>player := (player g)\<lparr>pos_y := pos_y (player g) + 1\<rparr>\<rparr>)))
       \<and> (collide (arena g) ((player g)\<lparr>pos_y := pos_y (player g) + 1\<rparr>) \<longrightarrow>
            (\<exists>a1 a2 s2 r0 rest.
               merge (arena g) (player g) = Inr a1
               \<and> sweep a1 (score g) = Some (Inr (a2, s2))
               \<and> random_shape rnd = Some (r0 # rest)
               \<and> dispatch g ev rnd =
                   Some (Inr (g\<lparr>arena := a2, score := s2,
                              player := \<lparr>pos_x = COLS div 2 - int (length r0) div 2, pos_y = 0,
                                          matrix = r0 # rest\<rparr>,
                              gameOver := collide a2
                                \<lparr>pos_x = COLS div 2 - int (length r0) div 2, pos_y = 0,
                                  matrix = r0 # rest\<rparr>,
                              started := \<not> collide a2
                                \<lparr>pos_x = COLS div 2 - int (length r0) div 2, pos_y = 0,
                                  matrix = r0 # rest\<rparr>\<rparr>))))"
proof -
  have ev: "dispatch g ev rnd = playerDrop g rnd"
    using assms(1-3) by (auto simp: dispatch_def keyListener_def)
  from merge_inside [OF not_collide_inside [OF assms(6)]] obtain a1 where
    a1: "merge (arena g) (player g) = Inr a1" by blast
  from merge_keeps_rows_nonempty [OF a1 assms(6,5)]
  have "\<forall>row\<in>set a1. row \<noteq> []" .
  from sweep_char [OF this, of "score g"] obtain a2 s2 where
    sw: "sweep a1 (score g) = Some (Inr (a2, s2))" by blast
  from random_shape_Some [OF assms(4)] obtain r0 rest where
    sh: "random_shape rnd = Some (r0 # rest)" by blast
  show ?thesis
    using assms(1,2) a1 sw sh
    by (auto simp: ev playerDrop_def playerReset_def Let_def)
qed

text \<open>
  Claim C6 says that on each tick or soft drop of a running game a piece that cannot
  move down is locked where it is, \<open>sweep\<close> runs, the cascade score is added and a new
  piece is spawned. Two runs of a game show where the source does otherwise. In the
  first, two I pieces and an O piece complete row \<open>19\<close>: the row is cleared and the
  score is \<open>30\<close>, where the cascade score of one row is \<open>15\<close> (the function handed to
  \<open>setScore\<close> reads \<open>rowCount\<close> after it was doubled). In the second, the failed
  rotation of claim C2 leaves the piece colliding in a running game, and the next tick
  raises \<open>TypeError\<close> in \<open>merge\<close>: nothing is locked, swept or spawned.
\<close>

theorem playerDrop_score_and_failed_lock:
  "play 0 (replicate 20 (Tick, 0) @ [(KeyDown ArrowRight, 0)] @ replicate 19 (Tick, 0)
             @ [(Tick, 3)] @ replicate 4 (KeyDown ArrowRight, 0) @ replicate 18 (Tick, 0))
     = Some (Inr \<lparr>arena = new_arena[19 := [1, 1, 1, 1, 1, 1, 1, 1, 0, 0]],
                  player = \<lparr>pos_x = 8, pos_y = 18, matrix = [[4, 4], [4, 4]]\<rparr>,
                  score = 0, gameOver = False, started = True\<rparr>)
   \<and> dispatch \<lparr>arena = new_arena[19 := [1, 1, 1, 1, 1, 1, 1, 1, 0, 0]],
               player = \<lparr>pos_x = 8, pos_y = 18, matrix = [[4, 4], [4, 4]]\<rparr>,
               score = 0, gameOver = False, started = True\<rparr> Tick 0
     = Some (Inr \<lparr>arena = new_arena[19 := [0, 0, 0, 0, 0, 0, 0, 0, 4, 4]],
                  player = \<lparr>pos_x = 3, pos_y = 0, matrix = [[1, 1, 1, 1]]\<rparr>,
                  score = 30, gameOver = False, started = True\<rparr>)
   \<and> play 0 (replicate 3 (KeyDown ArrowRight, 0) @ replicate 18 (Tick, 0)
              @ [(KeyDown ArrowUp, 0)])
     = Some (Inr \<lparr>arena = new_arena,
                  player = \<lparr>pos_x = 2, pos_y = 18, matrix = [[1], [1], [1], [1]]\<rparr>,
                  score = 0, gameOver = False, started = True\<rparr>)
   \<and> dispatch \<lparr>arena = new_arena,
               player = \<lparr>pos_x = 2, pos_y = 18, matrix = [[1], [1], [1], [1]]\<rparr>,
               score = 0, gameOver = False, started = True\<rparr> Tick 0
     = Some (Inl TypeError)"
  by code_simp

section \<open>Properties of the score contract\<close>

lemma fetchScores_after_upload:
  "fetchScores (case uploadScore fe this c s e pf of None \<Rightarrow> c | Some c' \<Rightarrow> c') p =
     fetchScores c p @ (if s = p then (case fe e pf s of None \<Rightarrow> [] | Some h \<Rightarrow> [h]) else [])"
  by (simp add: uploadScore_def fetchScores_def split: option.splits)

lemma fetchScores_run_uploads:
  "fetchScores (run_uploads fe this c calls) p =
     fetchScores c p @ List.map_filter (\<lambda>(s, e, pf). if s = p then fe e pf s else None) calls"
proof (induction calls arbitrary: c)
  case Nil
  then show ?case by (simp add: List.map_filter_simps)
next
  case (Cons call calls)
  obtain s e pf where call: "call = (s, e, pf)" by (cases call) auto
  show ?case
    unfolding call run_uploads.simps Cons.IH fetchScores_after_upload
    by (simp add: List.map_filter_simps split: option.splits)
qed

text \<open>
  Claim C8: a call of \<open>uploadScore\<close> that does not revert appends one handle to the
  caller's list and leaves every other player's list as it was; after any sequence of
  calls \<open>fetchScores\<close> gives a player's handles in the order of the uploads.
\<close>

theorem uploadScore_appends_in_order:
  "(\<forall>c'. uploadScore fe this c sender e pf = Some c' \<longrightarrow>
        (\<exists>h. fe e pf sender = Some h \<and> fetchScores c' sender = fetchScores c sender @ [h])
        \<and> (\<forall>q. q \<noteq> sender \<longrightarrow> fetchScores c' q = fetchScores c q))
   \<and> fetchScores (run_uploads fe this c calls) p =
       fetchScores c p @ List.map_filter (\<lambda>(s, e, pf). if s = p then fe e pf s else None) calls"
proof
  show "\<forall>c'. uploadScore fe this c sender e pf = Some c' \<longrightarrow>
        (\<exists>h. fe e pf sender = Some h \<and> fetchScores c' sender = fetchScores c sender @ [h])
        \<and> (\<forall>q. q \<noteq> sender \<longrightarrow> fetchScores c' q = fetchScores c q)"
    by (auto simp: uploadScore_def fetchScores_def split: option.splits)
next
  show "fetchScores (run_uploads fe this c calls) p =
       fetchScores c p @ List.map_filter (\<lambda>(s, e, pf). if s = p then fe e pf s else None) calls"
    by (rule fetchScores_run_uploads)
qed

text \<open>
  Four calls, the third with an empty proof that the stand-in for \<open>FHE.fromExternal\<close>
  rejects: player \<open>1\<close> holds \<open>100, 200\<close> in that order, player \<open>2\<close> holds \<open>300\<close>.
\<close>

theorem uploadScore_appends_in_order_witness:
  "fetchScores
     (run_uploads (\<lambda>e pf s. if pf = [] then None else Some e) 9
        \<lparr>playerScores = (\<lambda>a. []), allowed = {}\<rparr>
        [(1, 100, [7]), (2, 300, [7]), (1, 5, []), (1, 200, [7])]) 1 = [100, 200]
   \<and> fetchScores
     (run_uploads (\<lambda>e pf s. if pf = [] then None else Some e) 9
        \<lparr>playerScores = (\<lambda>a. []), allowed = {}\<rparr>
        [(1, 100, [7]), (2, 300, [7]), (1, 5, []), (1, 200, [7])]) 2 = [300]"
proof -
  let ?fe = "\<lambda>(e :: externalEuint32) (pf :: bytes) (s :: address).
               if pf = [] then None else Some (e :: euint32)"
  let ?c = "\<lparr>playerScores = (\<lambda>a :: address. [] :: euint32 list), allowed = {}\<rparr>"
  let ?calls = "[(1, 100, [7]), (2, 300, [7]), (1, 5, []), (1, 200, [7])]
                  :: (address \<times> externalEuint32 \<times> bytes) list"
  have a: "fetchScores (run_uploads ?fe 9 ?c ?calls) 1 =
       fetchScores ?c 1 @ List.map_filter (\<lambda>(s, e, pf). if s = 1 then ?fe e pf s else None) ?calls"
    using uploadScore_appends_in_order [of ?fe 9 ?c 1 1 "[7]" ?calls 1] by blast
  have b: "fetchScores (run_uploads ?fe 9 ?c ?calls) 2 =
       fetchScores ?c 2 @ List.map_filter (\<lambda>(s, e, pf). if s = 2 then ?fe e pf s else None) ?calls"
    using uploadScore_appends_in_order [of ?fe 9 ?c 1 1 "[7]" ?calls 2] by blast
  show ?thesis
    unfolding a b by (simp add: fetchScores_def List.map_filter_simps)
qed

end
